theory Spec2Isabelle
  imports Complex_Main
begin

section \<open>The Penman evaporation calculator\<close>

text \<open>
  A shallow embedding of \<^verbatim>\<open>penman_calculation.py\<close>: the class
  \<^verbatim>\<open>PenmanEvaporation\<close> with its constructor, the radiation sub-model
  \<^verbatim>\<open>_calculate_ra_and_N\<close> and the evaporation formula
  \<^verbatim>\<open>calculate_daily_evaporation\<close>.

  Numbers are real numbers. The source computes in binary floating point (doubles); the
  embedding follows its operations in their order and keeps every exception they raise,
  among them the \<^verbatim>\<open>OverflowError\<close> of \<^verbatim>\<open>**\<close>, but it does not round, and
  it has no infinity and no NaN. So a theorem here speaks of the values the formulas
  denote, of which the results of the source are roundings; an equality that holds only
  by cancellation in the reals says nothing about the doubles. Every exception is a value
  of the type \<open>error\<close>, and a function that may raise returns \<open>error + 'a\<close>.
\<close>

subsection \<open>Errors\<close>

text \<open>
  One constructor for each place an exception comes from:
  \<^item> \<open>Strptime_ValueError\<close>: the \<^verbatim>\<open>ValueError\<close> of \<^verbatim>\<open>datetime.strptime\<close>;
  \<^item> \<open>Invalid_wind_function\<close>: \<^verbatim>\<open>raise ValueError("Invalid wind function specified")\<close>;
  \<^item> \<open>Math_domain_error\<close>: the \<^verbatim>\<open>ValueError\<close> of \<^verbatim>\<open>math.sqrt\<close> on a negative argument;
  \<^item> \<open>ZeroDivisionError\<close>: the division \<^verbatim>\<open>rs / ra\<close> by zero;
  \<^item> \<open>OverflowError\<close>: the power \<^verbatim>\<open>(rs / ra) ** 2\<close> beyond the range of a double.
\<close>

datatype error =
    Strptime_ValueError
  | Invalid_wind_function
  | Math_domain_error
  | ZeroDivisionError
  | OverflowError

text \<open>
  The three kinds of error the specification names, and the kind of each exception. The
  specification names no kind for the overflow of the power.
\<close>

datatype error_kind = FormatError | InvalidParameterError | NumericDomainError | UnnamedError

fun kind_of :: "error \<Rightarrow> error_kind" where
  "kind_of Strptime_ValueError = FormatError"
| "kind_of Invalid_wind_function = InvalidParameterError"
| "kind_of Math_domain_error = NumericDomainError"
| "kind_of ZeroDivisionError = NumericDomainError"
| "kind_of OverflowError = UnnamedError"

subsection \<open>Dates and \<^verbatim>\<open>strptime\<close>\<close>

text \<open>
  A \<^verbatim>\<open>datetime.date\<close> value, and the argument of the sub-model, which the source
  tests with \<^verbatim>\<open>isinstance(date, str)\<close>: a text or a date value.
\<close>

record date =
  year :: nat
  month :: nat
  day :: nat

datatype date_arg = DateText string | DateValue date

text \<open>
  \<^verbatim>\<open>datetime.strptime(date, '%Y-%m-%d').date()\<close>. The library turns the format into a
  regular expression, one group for each directive,
  \<^verbatim>\<open>%Y = \d\d\d\d\<close>, \<^verbatim>\<open>%m = 1[0-2]|0[1-9]|[1-9]\<close>,
  \<^verbatim>\<open>%d = 3[0-1]|[1-2]\d|0[1-9]|[1-9]| [1-9]\<close>, matches it at the start of the text
  (alternatives in their order, with backtracking), refuses a match that leaves text over,
  converts the groups with \<^verbatim>\<open>int\<close> and builds the date, which refuses the year 0 and
  a day the month does not have. Each of these failures is a \<^verbatim>\<open>ValueError\<close>.
  A matcher returns the list of its matches in the order the regular expression tries them,
  each with the text that is left. Texts are over the characters below 256, whose only
  decimal digits are \<^verbatim>\<open>0\<close> to \<^verbatim>\<open>9\<close>.
\<close>

type_synonym matcher = "string \<Rightarrow> (string \<times> string) list"

definition chr_range :: "char \<Rightarrow> char \<Rightarrow> matcher" where
  "chr_range lo hi s =
     (case s of
        [] \<Rightarrow> []
      | c # r \<Rightarrow>
          if (of_char lo :: nat) \<le> of_char c \<and> (of_char c :: nat) \<le> of_char hi
          then [([c], r)] else [])"

definition chr_lit :: "char \<Rightarrow> matcher" where
  "chr_lit c = chr_range c c"

definition seq :: "matcher \<Rightarrow> matcher \<Rightarrow> matcher" where
  "seq p q s = concat (map (\<lambda>(a, r). map (\<lambda>(b, r'). (a @ b, r')) (q r)) (p s))"

definition alt :: "matcher \<Rightarrow> matcher \<Rightarrow> matcher" where
  "alt p q s = p s @ q s"

definition re_digit :: matcher where
  "re_digit = chr_range (CHR ''0'') (CHR ''9'')"

definition re_Y :: matcher where
  "re_Y = seq re_digit (seq re_digit (seq re_digit re_digit))"

definition re_m :: matcher where
  "re_m =
     alt (seq (chr_lit (CHR ''1'')) (chr_range (CHR ''0'') (CHR ''2'')))
    (alt (seq (chr_lit (CHR ''0'')) (chr_range (CHR ''1'') (CHR ''9'')))
         (chr_range (CHR ''1'') (CHR ''9'')))"

definition re_d :: matcher where
  "re_d =
     alt (seq (chr_lit (CHR ''3'')) (chr_range (CHR ''0'') (CHR ''1'')))
    (alt (seq (chr_range (CHR ''1'') (CHR ''2'')) re_digit)
    (alt (seq (chr_lit (CHR ''0'')) (chr_range (CHR ''1'') (CHR ''9'')))
    (alt (chr_range (CHR ''1'') (CHR ''9''))
         (seq (chr_lit (CHR '' '')) (chr_range (CHR ''1'') (CHR ''9''))))))"

text \<open>The matches of \<^verbatim>\<open>%Y-%m-%d\<close>: the three groups and the text left over.\<close>

definition re_Y_m_d :: "string \<Rightarrow> (string \<times> string \<times> string \<times> string) list" where
  "re_Y_m_d s =
     concat (map (\<lambda>(y, r1).
     concat (map (\<lambda>(h1, r2).
     concat (map (\<lambda>(m, r3).
     concat (map (\<lambda>(h2, r4).
             map (\<lambda>(d, r5). (y, m, d, r5)) (re_d r4))
       (chr_lit (CHR ''-'') r3)))
       (re_m r2)))
       (chr_lit (CHR ''-'') r1)))
       (re_Y s))"

text \<open>\<^verbatim>\<open>int\<close> on a group: decimal digits, the blank of \<^verbatim>\<open>%d\<close> skipped.\<close>

definition int_of_text :: "string \<Rightarrow> nat" where
  "int_of_text s =
     foldl (\<lambda>n c. 10 * n + (of_char c - 48)) 0 (filter (\<lambda>c. c \<noteq> CHR '' '') s)"

definition is_leap :: "nat \<Rightarrow> bool" where
  "is_leap y = (y mod 4 = 0 \<and> (y mod 100 \<noteq> 0 \<or> y mod 400 = 0))"

definition days_in_month :: "nat \<Rightarrow> nat \<Rightarrow> nat" where
  "days_in_month y m =
     (if m = 2 then (if is_leap y then 29 else 28)
      else if m = 4 \<or> m = 6 \<or> m = 9 \<or> m = 11 then 30 else 31)"

definition strptime :: "string \<Rightarrow> error + date" where
  "strptime s =
     (case re_Y_m_d s of
        [] \<Rightarrow> Inl Strptime_ValueError
      | (y, m, d, rest) # _ \<Rightarrow>
          if rest \<noteq> [] then Inl Strptime_ValueError
          else
            let yy = int_of_text y; mm = int_of_text m; dd = int_of_text d in
            if 1 \<le> yy \<and> 1 \<le> mm \<and> mm \<le> 12 \<and> 1 \<le> dd \<and> dd \<le> days_in_month yy mm
            then Inr \<lparr>year = yy, month = mm, day = dd\<rparr>
            else Inl Strptime_ValueError)"

text \<open>
  The format in the words of the specification, \<^verbatim>\<open>YYYY-MM-DD\<close>: four digits, a
  hyphen, two digits, a hyphen, two digits. It is not part of the source; the texts the
  source accepts are compared with it below.
\<close>

definition is_digit :: "char \<Rightarrow> bool" where
  "is_digit c = ((48::nat) \<le> of_char c \<and> (of_char c :: nat) \<le> 57)"

fun is_YYYY_MM_DD :: "string \<Rightarrow> bool" where
  "is_YYYY_MM_DD [y1, y2, y3, y4, h1, m1, m2, h2, d1, d2] =
     (is_digit y1 \<and> is_digit y2 \<and> is_digit y3 \<and> is_digit y4 \<and> h1 = CHR ''-''
      \<and> is_digit m1 \<and> is_digit m2 \<and> h2 = CHR ''-'' \<and> is_digit d1 \<and> is_digit d2)"
| "is_YYYY_MM_DD _ = False"

text \<open>
  The same format with months and days of one digit allowed, again in words and not
  from the source: a year of four digits, a month of one or two digits from 1 to 12, a
  day of one or two digits, or of a blank and a digit, from 1 to 31, and the calendar: the
  year is at least 1 and the day is within the length of the month, 29 days for February
  in a leap year of the Gregorian calendar.
\<close>

definition is_year_text :: "string \<Rightarrow> bool" where
  "is_year_text y = (length y = 4 \<and> list_all is_digit y)"

definition is_month_text :: "string \<Rightarrow> bool" where
  "is_month_text m =
     ((length m = 1 \<or> length m = 2) \<and> list_all is_digit m
      \<and> 1 \<le> int_of_text m \<and> int_of_text m \<le> 12)"

definition is_day_text :: "string \<Rightarrow> bool" where
  "is_day_text d =
     ((case d of
         [c] \<Rightarrow> is_digit c
       | [b, c] \<Rightarrow> (is_digit b \<or> b = CHR '' '') \<and> is_digit c
       | _ \<Rightarrow> False)
      \<and> 1 \<le> int_of_text d \<and> int_of_text d \<le> 31)"

definition leap_year :: "nat \<Rightarrow> bool" where
  "leap_year y = (4 dvd y \<and> (\<not> 100 dvd y \<or> 400 dvd y))"

definition length_of_month :: "nat \<Rightarrow> nat \<Rightarrow> nat" where
  "length_of_month y m =
     [31, if leap_year y then 29 else 28, 31, 30, 31, 30, 31, 31, 30, 31, 30, 31] ! (m - 1)"

definition is_calendar_date :: "nat \<Rightarrow> nat \<Rightarrow> nat \<Rightarrow> bool" where
  "is_calendar_date y m d = (1 \<le> y \<and> 1 \<le> m \<and> m \<le> 12 \<and> 1 \<le> d \<and> d \<le> length_of_month y m)"

subsection \<open>The engine\<close>

record PenmanEvaporation =
  latitude_rad :: real
  elevation :: real
  albedo :: real

text \<open>\<^verbatim>\<open>math.radians\<close>.\<close>

definition radians :: "real \<Rightarrow> real" where
  "radians x = x * pi / 180"

text \<open>\<^verbatim>\<open>__init__(self, latitude_deg, elevation=0, albedo=0.08)\<close>.\<close>

definition init :: "real \<Rightarrow> real \<Rightarrow> real \<Rightarrow> PenmanEvaporation" where
  "init latitude_deg elev alb =
     \<lparr>latitude_rad = radians latitude_deg, elevation = elev, albedo = alb\<rparr>"

subsection \<open>The radiation sub-model\<close>

text \<open>\<^verbatim>\<open>_calculate_ra_and_N(self, date)\<close>: the pair \<open>(Ra, N)\<close>.\<close>

definition calculate_ra_and_N :: "PenmanEvaporation \<Rightarrow> date_arg \<Rightarrow> error + (real \<times> real)" where
  "calculate_ra_and_N self date_in =
     (case (case date_in of DateText s \<Rightarrow> strptime s | DateValue d \<Rightarrow> Inr d) of
        Inl e \<Rightarrow> Inl e
      | Inr dt \<Rightarrow>
          let mth = real (month dt);
              phi = latitude_rad self;
              N = 4 * phi * sin (0.53 * mth - 1.65) + 12;
              Ra = (if \<bar>phi\<bar> > 23.5 * pi / 180
                    then 3 * N * sin (0.131 * N - 0.95 * phi)
                    else 118 * N ^ 2 * sin (0.131 * N - 0.2 * phi))
          in Inr (Ra, N))"

subsection \<open>The evaporation formula\<close>

text \<open>\<^verbatim>\<open>math.sqrt\<close> raises on a negative argument; \<^verbatim>\<open>/\<close> raises on a zero divisor.\<close>

definition math_sqrt :: "real \<Rightarrow> error + real" where
  "math_sqrt x = (if x < 0 then Inl Math_domain_error else Inr (sqrt x))"

definition truediv :: "real \<Rightarrow> real \<Rightarrow> error + real" where
  "truediv a b = (if b = 0 then Inl ZeroDivisionError else Inr (a / b))"

text \<open>
  \<^verbatim>\<open>x ** 2\<close> on a float. A real of magnitude \<open>2 ^ 1024 - 2 ^ 970\<close> or more rounds
  beyond the largest double. The power raises \<^verbatim>\<open>OverflowError\<close> when \<open>x\<close> is
  within the range and its square is not. When \<open>x\<close> itself is beyond the range, the
  division before has returned an infinity without an exception, and the power of an
  infinity raises nothing either: the source goes on, so the model goes on with the square.
  The other power of the source, \<^verbatim>\<open>N ** 2\<close> in the tropical branch of the
  sub-model, is taken of a number below 16 (\<open>tropical_power_in_range\<close> below) and cannot
  raise.
\<close>

definition float_overflow :: real where
  "float_overflow = 2 ^ 1024 - 2 ^ 970"

definition float_pow2 :: "real \<Rightarrow> error + real" where
  "float_pow2 x =
     (if \<bar>x\<bar> < float_overflow \<and> float_overflow \<le> x\<^sup>2 then Inl OverflowError
      else Inr (x\<^sup>2))"

text \<open>The \<^verbatim>\<open>if\<close>/\<^verbatim>\<open>elif\<close> chain on \<^verbatim>\<open>wind_function\<close>: the pair \<open>(a_u, b_u)\<close>.\<close>

definition wind_coefficients :: "string \<Rightarrow> error + (real \<times> real)" where
  "wind_coefficients wind_function =
     (if wind_function = ''penman1948'' then Inr (1, 0.536)
      else if wind_function = ''penman1956'' then Inr (0.5, 0.536)
      else if wind_function = ''linacre1993'' then Inr (0, 0.54)
      else Inl Invalid_wind_function)"

text \<open>
  The body of \<^verbatim>\<open>calculate_daily_evaporation\<close> up to the local variable
  \<^verbatim>\<open>e_pen\<close>, in the source's order of evaluation: the sub-model first, then the
  branch on \<^verbatim>\<open>u\<close> (\<open>None\<close> is Python's \<^verbatim>\<open>None\<close>), the wind coefficients, the
  square root of \<^verbatim>\<open>term1\<close>, the division and the power of \<^verbatim>\<open>term2\<close>.
\<close>

definition e_pen ::
  "PenmanEvaporation \<Rightarrow> date_arg \<Rightarrow> real \<Rightarrow> real \<Rightarrow> real \<Rightarrow> real option \<Rightarrow> string \<Rightarrow> error + real"
where
  "e_pen self datetime_obj t_mean rh_mean rs u wind_function =
     (case calculate_ra_and_N self datetime_obj of
        Inl e \<Rightarrow> Inl e
      | Inr (ra, N) \<Rightarrow>
          (case u of
             Some uv \<Rightarrow>
               (case wind_coefficients wind_function of
                  Inl e \<Rightarrow> Inl e
                | Inr (a_u, b_u) \<Rightarrow>
                    (case math_sqrt (t_mean + 9.5) of
                       Inl e \<Rightarrow> Inl e
                     | Inr sq \<Rightarrow>
                         (case truediv rs ra of
                            Inl e \<Rightarrow> Inl e
                          | Inr q \<Rightarrow>
                              (case float_pow2 q of
                                 Inl e \<Rightarrow> Inl e
                               | Inr q2 \<Rightarrow>
                                   let term1 = 0.051 * (1 - albedo self) * rs * sq;
                                       term2 = 2.4 * q2;
                                       term3 = 0.052 * (t_mean + 20) * (1 - rh_mean / 100)
                                                 * (a_u - 0.38 + b_u * uv);
                                       elevation_correction = 0.00012 * elevation self
                                   in Inr (term1 - term2 + term3 + elevation_correction)))))
           | None \<Rightarrow>
               (case math_sqrt (t_mean + 9.5) of
                  Inl e \<Rightarrow> Inl e
                | Inr sq \<Rightarrow>
                    (case truediv rs ra of
                       Inl e \<Rightarrow> Inl e
                     | Inr q \<Rightarrow>
                         (case float_pow2 q of
                            Inl e \<Rightarrow> Inl e
                          | Inr q2 \<Rightarrow>
                              let term1 = 0.047 * rs * sq;
                                  term2 = 2.4 * q2;
                                  term3 = 0.09 * (t_mean + 20) * (1 - rh_mean / 100);
                                  elevation_correction = 0.00012 * elevation self
                              in Inr (term1 - term2 + term3 + elevation_correction))))))"

text \<open>\<^verbatim>\<open>return max(0, e_pen)\<close>.\<close>

definition calculate_daily_evaporation ::
  "PenmanEvaporation \<Rightarrow> date_arg \<Rightarrow> real \<Rightarrow> real \<Rightarrow> real \<Rightarrow> real option \<Rightarrow> string \<Rightarrow> error + real"
where
  "calculate_daily_evaporation self datetime_obj t_mean rh_mean rs u wind_function =
     (case e_pen self datetime_obj t_mean rh_mean rs u wind_function of
        Inl e \<Rightarrow> Inl e
      | Inr v \<Rightarrow> Inr (max 0 v))"

subsection \<open>An example site\<close>

text \<open>
  The engine of \<^verbatim>\<open>main.py\<close>,
  \<^verbatim>\<open>PenmanEvaporation(latitude_deg=31.96, elevation=30, albedo=0.08)\<close>, and the
  daylight hours and the radiation its sub-model computes for a date in July.
\<close>

definition penman :: PenmanEvaporation where
  "penman = init 31.96 30 0.08"

definition example_N :: real where
  "example_N = 4 * radians 31.96 * sin (0.53 * 7 - 1.65) + 12"

definition example_Ra :: real where
  "example_Ra = 3 * example_N * sin (0.131 * example_N - 0.95 * radians 31.96)"

section \<open>Unfolding the model\<close>

text \<open>
  The fields of a constructed engine, and the body of \<open>e_pen\<close> branch by branch: what
  it returns once the sub-model and the wind coefficients are known.
\<close>

lemma elevation_init [simp]: "elevation (init lat elev alb) = elev"
  by (simp add: init_def)

lemma albedo_init [simp]: "albedo (init lat elev alb) = alb"
  by (simp add: init_def)

lemma latitude_rad_init [simp]: "latitude_rad (init lat elev alb) = radians lat"
  by (simp add: init_def)

lemma ra_and_N_init:
  "calculate_ra_and_N (init lat elev alb) dt = calculate_ra_and_N (init lat elev' alb') dt"
  by (simp add: calculate_ra_and_N_def init_def Let_def split: sum.splits date_arg.splits)

lemma e_pen_Inl:
  "calculate_ra_and_N self dt = Inl e \<Longrightarrow> e_pen self dt t_mean rh_mean rs u wind_function = Inl e"
  by (simp add: e_pen_def)

lemma e_pen_None:
  "calculate_ra_and_N self dt = Inr (ra, N) \<Longrightarrow>
   e_pen self dt t_mean rh_mean rs None wind_function =
     (if t_mean + 9.5 < 0 then Inl Math_domain_error
      else if ra = 0 then Inl ZeroDivisionError
      else if \<bar>rs / ra\<bar> < float_overflow \<and> float_overflow \<le> (rs / ra)\<^sup>2 then Inl OverflowError
      else Inr (0.047 * rs * sqrt (t_mean + 9.5) - 2.4 * (rs / ra) ^ 2
                + 0.09 * (t_mean + 20) * (1 - rh_mean / 100) + 0.00012 * elevation self))"
  by (simp add: e_pen_def math_sqrt_def truediv_def float_pow2_def Let_def)

lemma e_pen_Some_Inl:
  "calculate_ra_and_N self dt = Inr (ra, N) \<Longrightarrow> wind_coefficients wind_function = Inl e \<Longrightarrow>
   e_pen self dt t_mean rh_mean rs (Some u) wind_function = Inl e"
  by (simp add: e_pen_def)

lemma e_pen_Some:
  "calculate_ra_and_N self dt = Inr (ra, N) \<Longrightarrow> wind_coefficients wind_function = Inr (a_u, b_u) \<Longrightarrow>
   e_pen self dt t_mean rh_mean rs (Some u) wind_function =
     (if t_mean + 9.5 < 0 then Inl Math_domain_error
      else if ra = 0 then Inl ZeroDivisionError
      else if \<bar>rs / ra\<bar> < float_overflow \<and> float_overflow \<le> (rs / ra)\<^sup>2 then Inl OverflowError
      else Inr (0.051 * (1 - albedo self) * rs * sqrt (t_mean + 9.5) - 2.4 * (rs / ra) ^ 2
                + 0.052 * (t_mean + 20) * (1 - rh_mean / 100) * (a_u - 0.38 + b_u * u)
                + 0.00012 * elevation self))"
  by (simp add: e_pen_def math_sqrt_def truediv_def float_pow2_def Let_def)

lemma float_overflow_bounds: "10 ^ 300 \<le> float_overflow" "float_overflow \<le> 10 ^ 309"
  by (simp_all add: float_overflow_def)

lemma tropical_power_in_range:
  assumes "\<not> \<bar>phi\<bar> > 23.5 * pi / 180"
  shows "(4 * phi * sin x + 12)\<^sup>2 < float_overflow"
proof -
  from assms have "\<bar>phi\<bar> \<le> 23.5 * 4 / 180"
    using pi_less_4 by simp
  then have p: "\<bar>phi\<bar> \<le> 1" by simp
  have "\<bar>phi * sin x\<bar> \<le> 1 * 1"
    unfolding abs_mult using p by (intro mult_mono) simp_all
  then have "\<bar>4 * phi * sin x + 12\<bar> \<le> 16" by (simp add: abs_le_iff)
  then have "(4 * phi * sin x + 12)\<^sup>2 \<le> 16\<^sup>2"
    using abs_le_square_iff [of "4 * phi * sin x + 12" 16] by simp
  also have "\<dots> < float_overflow" by (simp add: float_overflow_def)
  finally show ?thesis .
qed



lemma e_pen_Some_value:
  assumes "calculate_ra_and_N self dt = Inr (ra, N)"
    and "wind_coefficients wind_function = Inr (a_u, b_u)"
    and "0 \<le> t_mean + 9.5" and "ra \<noteq> 0" and "(rs / ra)\<^sup>2 < float_overflow"
  shows "e_pen self dt t_mean rh_mean rs (Some u) wind_function =
           Inr (0.051 * (1 - albedo self) * rs * sqrt (t_mean + 9.5) - 2.4 * (rs / ra)\<^sup>2
                + 0.052 * (t_mean + 20) * (1 - rh_mean / 100) * (a_u - 0.38 + b_u * u)
                + 0.00012 * elevation self)"
  using assms(3-) by (simp add: e_pen_Some [OF assms(1,2)])


lemma e_pen_cong_ra:
  "calculate_ra_and_N self dt = calculate_ra_and_N self dt' \<Longrightarrow>
   e_pen self dt t_mean rh_mean rs u wind_function = e_pen self dt' t_mean rh_mean rs u wind_function"
  by (simp add: e_pen_def)

lemma wind_coefficients_table:
  "wind_coefficients ''penman1948'' = Inr (1, 0.536)"
  "wind_coefficients ''penman1956'' = Inr (0.5, 0.536)"
  "wind_coefficients ''linacre1993'' = Inr (0, 0.54)"
  by (simp_all add: wind_coefficients_def)

lemma wind_coefficients_other:
  "wind_function \<notin> {''penman1948'', ''penman1956'', ''linacre1993''} \<Longrightarrow>
   wind_coefficients wind_function = Inl Invalid_wind_function"
  by (simp add: wind_coefficients_def)

lemma ra_and_N_DateText_Inl:
  "strptime s = Inl e \<Longrightarrow> calculate_ra_and_N self (DateText s) = Inl e"
  by (simp add: calculate_ra_and_N_def)

lemma ra_and_N_DateText_Inr:
  "strptime s = Inr d \<Longrightarrow> calculate_ra_and_N self (DateText s) = calculate_ra_and_N self (DateValue d)"
  by (simp add: calculate_ra_and_N_def)

lemma ra_and_N_DateValue:
  "\<exists>Ra N. calculate_ra_and_N self (DateValue d) = Inr (Ra, N)"
  by (simp add: calculate_ra_and_N_def Let_def)

section \<open>The date parser\<close>

text \<open>
  Evaluating \<open>strptime\<close> on a literal text, and what a result of \<open>strptime\<close>
  says about the text: an error is always the parser's own, a date is a calendar date.
\<close>

lemmas strptime_eval = strptime_def re_Y_m_d_def re_Y_def re_m_def re_d_def re_digit_def seq_def alt_def chr_lit_def chr_range_def int_of_text_def days_in_month_def is_leap_def

lemma strptime_example: "strptime ''2025-07-15'' = Inr \<lparr>year = 2025, month = 7, day = 15\<rparr>"
  by (simp add: strptime_eval)

lemma strptime_wrong_order: "strptime ''15-07-2025'' = Inl Strptime_ValueError"
  by (simp add: strptime_eval)

lemma strptime_one_digit: "strptime ''2025-7-5'' = Inr \<lparr>year = 2025, month = 7, day = 5\<rparr>"
  by (simp add: strptime_eval)

lemma strptime_Inl: "strptime s = Inl e \<Longrightarrow> e = Strptime_ValueError"
  by (auto simp add: strptime_def Let_def split: list.splits prod.splits if_splits)

lemma strptime_letters: "strptime ''abcd-ef-gh'' = Inl Strptime_ValueError"
  by (simp add: strptime_eval)

lemma strptime_february: "strptime ''2025-02-30'' = Inl Strptime_ValueError"
  by (simp add: strptime_eval)

text \<open>
  Soundness. Every match of a matcher splits the text into the matched part and the rest,
  and what the groups \<^verbatim>\<open>%Y\<close>, \<^verbatim>\<open>%m\<close> and \<^verbatim>\<open>%d\<close> match is a year, a
  month and a day text. The calendar check of the date constructor is the calendar of the
  format.
\<close>

lemma blank_char: "(of_char c :: nat) = 32 \<Longrightarrow> c = CHR '' ''"
  using of_char_eq_iff [of c "CHR '' ''", where ?'a = nat] by simp

lemma chr_range_E:
  assumes "(a, r) \<in> set (chr_range lo hi s)"
  obtains c where "a = [c]" "s = c # r" "(of_char lo :: nat) \<le> of_char c"
    "(of_char c :: nat) \<le> of_char hi"
  using assms by (auto simp add: chr_range_def split: list.splits if_splits)

lemma chr_lit_D:
  "(a, r) \<in> set (chr_lit c s) \<Longrightarrow> s = c # r"
  by (auto simp add: chr_lit_def chr_range_def split: list.splits if_splits)

lemma seq_D:
  assumes "(a, r) \<in> set (seq p q s)"
  obtains a1 a2 r1 where "a = a1 @ a2" "(a1, r1) \<in> set (p s)" "(a2, r) \<in> set (q r1)"
  using assms by (auto simp add: seq_def)

lemma alt_D:
  "(a, r) \<in> set (alt p q s) \<Longrightarrow> (a, r) \<in> set (p s) \<or> (a, r) \<in> set (q s)"
  by (auto simp add: alt_def)

lemma int_of_text1: "is_digit c \<Longrightarrow> int_of_text [c] = of_char c - 48"
  by (auto simp add: int_of_text_def is_digit_def)

lemma int_of_text_blank: "is_digit c \<Longrightarrow> int_of_text [CHR '' '', c] = of_char c - 48"
  by (auto simp add: int_of_text_def is_digit_def)

lemma int_of_text2:
  "is_digit a \<Longrightarrow> is_digit b \<Longrightarrow> int_of_text [a, b] = 10 * (of_char a - 48) + (of_char b - 48)"
  by (auto simp add: int_of_text_def is_digit_def)

lemma is_leap_eq: "is_leap y = leap_year y"
  by (simp add: is_leap_def leap_year_def dvd_eq_mod_eq_0)

lemma days_in_month_eq:
  assumes "1 \<le> m" and "m \<le> 12"
  shows "days_in_month y m = length_of_month y m"
proof -
  from assms have "m = 1 \<or> m = 2 \<or> m = 3 \<or> m = 4 \<or> m = 5 \<or> m = 6 \<or> m = 7 \<or> m = 8
      \<or> m = 9 \<or> m = 10 \<or> m = 11 \<or> m = 12"
    by arith
  then show ?thesis
    by (elim disjE) (simp_all add: days_in_month_def length_of_month_def is_leap_eq)
qed

lemma days_in_month_le: "days_in_month y m \<le> 31"
  by (simp add: days_in_month_def)

lemma length_of_month_le: "1 \<le> m \<Longrightarrow> m \<le> 12 \<Longrightarrow> length_of_month y m \<le> 31"
  using days_in_month_eq [of m y] days_in_month_le [of y m] by simp

lemma re_Y_sound: "(a, r) \<in> set (re_Y s) \<Longrightarrow> s = a @ r \<and> is_year_text a"
  unfolding re_Y_def re_digit_def
  by (auto elim!: seq_D chr_range_E simp add: is_year_text_def is_digit_def)

lemma re_m_sound: "(a, r) \<in> set (re_m s) \<Longrightarrow> s = a @ r \<and> is_month_text a"
  unfolding re_m_def chr_lit_def
  by (auto dest!: alt_D elim!: seq_D chr_range_E
      simp add: is_month_text_def is_digit_def int_of_text_def)

lemma re_d_sound: "(a, r) \<in> set (re_d s) \<Longrightarrow> s = a @ r \<and> is_day_text a"
  unfolding re_d_def chr_lit_def re_digit_def
  by (auto dest!: alt_D elim!: seq_D chr_range_E dest: blank_char
      simp add: is_day_text_def is_digit_def int_of_text_def)

lemma re_Y_m_d_sound:
  assumes "(y, m, d, r) \<in> set (re_Y_m_d s)"
  shows "s = y @ ''-'' @ m @ ''-'' @ d @ r \<and> is_year_text y \<and> is_month_text m \<and> is_day_text d"
proof -
  from assms obtain r1 r2 r3 r4 h1 h2 where
    "(y, r1) \<in> set (re_Y s)" "(h1, r2) \<in> set (chr_lit (CHR ''-'') r1)"
    "(m, r3) \<in> set (re_m r2)" "(h2, r4) \<in> set (chr_lit (CHR ''-'') r3)"
    "(d, r) \<in> set (re_d r4)"
    by (auto simp add: re_Y_m_d_def)
  then show ?thesis
    by (auto dest!: re_Y_sound re_m_sound re_d_sound chr_lit_D)
qed

text \<open>
  Completeness. On a year, a month before a hyphen and a day at the end of the text, the
  first match of each group is the whole of it.
\<close>

lemma re_Y_digits:
  "is_digit y1 \<Longrightarrow> is_digit y2 \<Longrightarrow> is_digit y3 \<Longrightarrow> is_digit y4 \<Longrightarrow>
   re_Y (y1 # y2 # y3 # y4 # r) = [([y1, y2, y3, y4], r)]"
  by (simp add: re_Y_def re_digit_def seq_def chr_range_def is_digit_def)

lemma chr_lit_hyphen: "chr_lit (CHR ''-'') (CHR ''-'' # r) = [(''-'', r)]"
  by (simp add: chr_lit_def chr_range_def)

lemma re_m_two:
  assumes "is_digit m1" "is_digit m2" "1 \<le> int_of_text [m1, m2]" "int_of_text [m1, m2] \<le> 12"
  shows "\<exists>ms. re_m (m1 # m2 # r) = ([m1, m2], r) # ms"
  using assms
  by (auto simp add: int_of_text2 re_m_def seq_def alt_def chr_lit_def chr_range_def is_digit_def)

lemma re_d_two:
  assumes "is_digit d1" "is_digit d2" "1 \<le> int_of_text [d1, d2]" "int_of_text [d1, d2] \<le> 31"
  shows "\<exists>ds. re_d (d1 # d2 # r) = ([d1, d2], r) # ds"
  using assms
  by (auto simp add: int_of_text2 re_d_def re_digit_def seq_def alt_def chr_lit_def chr_range_def is_digit_def)

lemma re_Y_complete: "is_year_text y \<Longrightarrow> re_Y (y @ r) = [(y, r)]"
proof -
  assume a: "is_year_text y"
  then obtain y1 y2 y3 y4 where y: "y = [y1, y2, y3, y4]"
    by (auto simp add: is_year_text_def length_Suc_conv numeral_eq_Suc)
  with a show ?thesis
    by (simp add: is_year_text_def re_Y_digits)
qed

lemma re_m_complete:
  assumes "is_month_text m"
  shows "\<exists>ms. re_m (m @ CHR ''-'' # r) = (m, CHR ''-'' # r) # ms"
proof -
  from assms consider c where "m = [c]" | c1 c2 where "m = [c1, c2]"
    by (auto simp add: is_month_text_def length_Suc_conv numeral_eq_Suc)
  then show ?thesis
  proof cases
    case 1
    with assms show ?thesis
      by (auto simp add: is_month_text_def int_of_text1 re_m_def seq_def alt_def chr_lit_def
          chr_range_def is_digit_def)
  next
    case 2
    with assms show ?thesis
      using re_m_two [of c1 c2 "CHR ''-'' # r"] by (simp add: is_month_text_def)
  qed
qed

lemma re_d_complete:
  assumes "is_day_text d"
  shows "\<exists>ds. re_d d = (d, []) # ds"
proof -
  from assms consider c where "d = [c]" "is_digit c"
    | c1 c2 where "d = [c1, c2]" "is_digit c1" "is_digit c2"
    | c where "d = [CHR '' '', c]" "is_digit c"
    by (auto simp add: is_day_text_def split: list.splits)
  then show ?thesis
  proof cases
    case 1
    with assms show ?thesis
      by (auto simp add: is_day_text_def int_of_text1 re_d_def re_digit_def seq_def alt_def
          chr_lit_def chr_range_def is_digit_def)
  next
    case 2
    with assms show ?thesis
      using re_d_two [of c1 c2 "[]"] by (simp add: is_day_text_def)
  next
    case 3
    with assms show ?thesis
      by (auto simp add: is_day_text_def int_of_text_blank re_d_def re_digit_def seq_def alt_def
          chr_lit_def chr_range_def is_digit_def)
  qed
qed

lemma re_Y_m_d_complete:
  assumes "is_year_text y" and "is_month_text m" and "is_day_text d"
  shows "\<exists>l. re_Y_m_d (y @ ''-'' @ m @ ''-'' @ d) = (y, m, d, []) # l"
proof -
  obtain ms where ms: "re_m (m @ CHR ''-'' # d) = (m, CHR ''-'' # d) # ms"
    using re_m_complete [OF assms(2)] by blast
  obtain ds where ds: "re_d d = (d, []) # ds"
    using re_d_complete [OF assms(3)] by blast
  have y: "re_Y (y @ CHR ''-'' # m @ CHR ''-'' # d) = [(y, CHR ''-'' # m @ CHR ''-'' # d)]"
    by (rule re_Y_complete [OF assms(1)])
  show ?thesis
    by (simp add: re_Y_m_d_def y chr_lit_hyphen ms ds)
qed

text \<open>
  So \<open>strptime\<close> returns a date exactly on the texts of the format, and on a text in
  the form \<^verbatim>\<open>YYYY-MM-DD\<close> that names a calendar date in particular.
\<close>

lemma strptime_iff:
  "strptime s = Inr dt \<longleftrightarrow>
     (\<exists>y m d. s = y @ ''-'' @ m @ ''-'' @ d
        \<and> is_year_text y \<and> is_month_text m \<and> is_day_text d
        \<and> is_calendar_date (int_of_text y) (int_of_text m) (int_of_text d)
        \<and> dt = \<lparr>year = int_of_text y, month = int_of_text m, day = int_of_text d\<rparr>)"
proof
  assume a: "strptime s = Inr dt"
  then obtain y m d ms where l: "re_Y_m_d s = (y, m, d, []) # ms"
    and dt: "dt = \<lparr>year = int_of_text y, month = int_of_text m, day = int_of_text d\<rparr>"
    and v: "1 \<le> int_of_text y" "1 \<le> int_of_text m" "int_of_text m \<le> 12" "1 \<le> int_of_text d"
      "int_of_text d \<le> days_in_month (int_of_text y) (int_of_text m)"
    by (auto simp add: strptime_def Let_def split: list.splits prod.splits if_splits)
  from l have "(y, m, d, []) \<in> set (re_Y_m_d s)" by simp
  from re_Y_m_d_sound [OF this] have s: "s = y @ ''-'' @ m @ ''-'' @ d"
    and t: "is_year_text y" "is_month_text m" "is_day_text d" by simp_all
  from v have "is_calendar_date (int_of_text y) (int_of_text m) (int_of_text d)"
    by (simp add: is_calendar_date_def days_in_month_eq)
  with s t dt show "\<exists>y m d. s = y @ ''-'' @ m @ ''-'' @ d
        \<and> is_year_text y \<and> is_month_text m \<and> is_day_text d
        \<and> is_calendar_date (int_of_text y) (int_of_text m) (int_of_text d)
        \<and> dt = \<lparr>year = int_of_text y, month = int_of_text m, day = int_of_text d\<rparr>"
    by blast
next
  assume "\<exists>y m d. s = y @ ''-'' @ m @ ''-'' @ d
        \<and> is_year_text y \<and> is_month_text m \<and> is_day_text d
        \<and> is_calendar_date (int_of_text y) (int_of_text m) (int_of_text d)
        \<and> dt = \<lparr>year = int_of_text y, month = int_of_text m, day = int_of_text d\<rparr>"
  then obtain y m d where s: "s = y @ ''-'' @ m @ ''-'' @ d"
    and t: "is_year_text y" "is_month_text m" "is_day_text d"
    and c: "is_calendar_date (int_of_text y) (int_of_text m) (int_of_text d)"
    and dt: "dt = \<lparr>year = int_of_text y, month = int_of_text m, day = int_of_text d\<rparr>"
    by blast
  from re_Y_m_d_complete [OF t] obtain l where
    l: "re_Y_m_d (y @ ''-'' @ m @ ''-'' @ d) = (y, m, d, []) # l" by blast
  from c have "1 \<le> int_of_text y" "1 \<le> int_of_text m" "int_of_text m \<le> 12" "1 \<le> int_of_text d"
    "int_of_text d \<le> days_in_month (int_of_text y) (int_of_text m)"
    by (simp_all add: is_calendar_date_def days_in_month_eq)
  with l show "strptime s = Inr dt"
    unfolding s dt by (simp add: strptime_def)
qed

lemma strptime_strict_form:
  assumes f: "is_YYYY_MM_DD s"
    and c: "is_calendar_date (int_of_text (take 4 s)) (int_of_text (take 2 (drop 5 s)))
              (int_of_text (drop 8 s))"
  shows "strptime s =
           Inr \<lparr>year = int_of_text (take 4 s), month = int_of_text (take 2 (drop 5 s)),
                day = int_of_text (drop 8 s)\<rparr>"
proof -
  from f obtain y1 y2 y3 y4 m1 m2 d1 d2 where
    s: "s = [y1, y2, y3, y4] @ ''-'' @ [m1, m2] @ ''-'' @ [d1, d2]"
    and dg: "is_digit y1" "is_digit y2" "is_digit y3" "is_digit y4"
      "is_digit m1" "is_digit m2" "is_digit d1" "is_digit d2"
    by (auto elim!: is_YYYY_MM_DD.elims)
  from c have c': "is_calendar_date (int_of_text [y1, y2, y3, y4]) (int_of_text [m1, m2])
      (int_of_text [d1, d2])"
    unfolding s by simp
  then have "int_of_text [d1, d2] \<le> 31"
    using length_of_month_le [of "int_of_text [m1, m2]" "int_of_text [y1, y2, y3, y4]"]
    by (simp add: is_calendar_date_def)
  with c' dg have "is_year_text [y1, y2, y3, y4]" "is_month_text [m1, m2]" "is_day_text [d1, d2]"
    by (simp_all add: is_year_text_def is_month_text_def is_day_text_def is_calendar_date_def)
  with c' have "strptime ([y1, y2, y3, y4] @ ''-'' @ [m1, m2] @ ''-'' @ [d1, d2]) =
      Inr \<lparr>year = int_of_text [y1, y2, y3, y4], month = int_of_text [m1, m2],
           day = int_of_text [d1, d2]\<rparr>"
    unfolding strptime_iff by blast
  then show ?thesis unfolding s by simp
qed

lemma strict_example:
  "is_YYYY_MM_DD ''2025-07-15''
   \<and> is_calendar_date (int_of_text (take 4 ''2025-07-15''))
       (int_of_text (take 2 (drop 5 ''2025-07-15''))) (int_of_text (drop 8 ''2025-07-15''))"
  by (simp add: is_digit_def int_of_text_def is_calendar_date_def length_of_month_def)

section \<open>The example site in July\<close>

text \<open>
  Bounds on the daylight hours and the radiation of the example site, from \<open>3 \<le> pi\<close>
  and \<open>pi < 4\<close>: the radiation lies between 18 and 45, so it is not zero.
\<close>

lemma pi_ge_three: "3 \<le> pi"
  using sin_x_le_x [of "pi / 6"] by (simp add: sin_30)

lemma radians_example_bounds: "0.53 \<le> radians 31.96" "radians 31.96 \<le> 0.72"
  using pi_ge_three pi_less_4 by (simp_all add: radians_def)

lemma temperate_example: "23.5 * pi / 180 < \<bar>radians 31.96\<bar>"
  by (simp add: radians_def)

lemma ra_and_N_example:
  "calculate_ra_and_N penman (DateText ''2025-07-15'') = Inr (example_Ra, example_N)"
  using temperate_example
  by (simp add: calculate_ra_and_N_def strptime_example penman_def example_Ra_def example_N_def Let_def)

lemma example_N_bounds: "12 \<le> example_N" "example_N \<le> 14.88"
proof -
  have "(0::real) \<le> 2.06" "(2.06::real) \<le> pi" using pi_ge_three by simp_all
  then have s0: "0 \<le> sin (2.06::real)" by (rule sin_ge_zero)
  have s1: "sin (2.06::real) \<le> 1" by simp
  have e: "example_N = 4 * radians 31.96 * sin (2.06::real) + 12"
    by (simp add: example_N_def)
  from radians_example_bounds s0 show "12 \<le> example_N" unfolding e by simp
  have "radians 31.96 * sin (2.06::real) \<le> 0.72 * 1"
    using radians_example_bounds s0 s1 by (intro mult_mono) simp_all
  then show "example_N \<le> 14.88" unfolding e by (simp add: algebra_simps)
qed

lemma example_Ra_bounds: "0 < example_Ra" "example_Ra \<le> 45"
proof -
  let ?x = "0.131 * example_N - 0.95 * radians 31.96"
  have "0 < ?x" "?x < pi"
    using example_N_bounds radians_example_bounds pi_ge_three by simp_all
  then have s0: "0 < sin ?x" by (rule sin_gt_zero)
  have s1: "sin ?x \<le> 1" by simp
  from example_N_bounds s0 show "0 < example_Ra" by (simp add: example_Ra_def)
  have "example_N * sin ?x \<le> 14.88 * 1"
    using example_N_bounds s0 s1 by (intro mult_mono) simp_all
  then show "example_Ra \<le> 45" by (simp add: example_Ra_def algebra_simps)
qed

lemma example_Ra_lower: "18 \<le> example_Ra"
proof -
  let ?x = "0.131 * example_N - 0.95 * radians 31.96"
  have "pi / 6 \<le> ?x" "?x \<le> pi / 2"
    using example_N_bounds radians_example_bounds pi_ge_three pi_less_4 by simp_all
  then have "sin (pi / 6) \<le> sin ?x"
    by (intro sin_monotone_2pi_le) simp_all
  then have s: "1 / 2 \<le> sin ?x" by (simp add: sin_30)
  have "12 * (1 / 2) \<le> example_N * sin ?x"
    using example_N_bounds s by (intro mult_mono) simp_all
  then show ?thesis by (simp add: example_Ra_def algebra_simps)
qed

lemma penman_fields [simp]: "albedo penman = 0.08" "elevation penman = 30"
  by (simp_all add: penman_def)

text \<open>
  At the example site a radiation \<open>rs\<close> of ordinary size is far from the overflow of the
  power, and a radiation of \<open>10 ^ 200\<close> is beyond it.
\<close>

lemma example_quotient:
  assumes "0 \<le> x" and "x \<le> 10 ^ 100"
  shows "(x / example_Ra)\<^sup>2 < float_overflow"
proof -
  have "x / example_Ra \<le> x / 18"
    using assms(1) example_Ra_lower by (intro divide_left_mono) simp_all
  moreover have "x / 18 \<le> x" using assms(1) by simp
  ultimately have "x / example_Ra \<le> 10 ^ 100" using assms(2) by linarith
  moreover have "0 \<le> x / example_Ra"
    using assms(1) example_Ra_bounds(1) by simp
  ultimately have "(x / example_Ra)\<^sup>2 \<le> (10 ^ 100)\<^sup>2"
    by (intro power_mono)
  also have "\<dots> < (10 ^ 300 :: real)" by simp
  finally show ?thesis using float_overflow_bounds(1) by simp
qed



text \<open>
  A cold day at the example site, on which the raw value is negative, and a warm day, on
  which it is positive, for the wind functions \<^verbatim>\<open>penman1948\<close> and
  \<^verbatim>\<open>penman1956\<close>.
\<close>

lemma e_pen_cold_example:
  assumes "wind_function = ''penman1948'' \<and> a_u = 1 \<or> wind_function = ''penman1956'' \<and> a_u = 0.5"
  shows "e_pen penman (DateText ''2025-07-15'') (-9.5) 90 10 (Some 0) wind_function =
           Inr (0.052 * (-9.5 + 20) * (1 - 90 / 100) * (a_u - 0.38) + 0.00012 * 30
                - 2.4 * (10 / example_Ra)\<^sup>2)"
proof -
  have w: "wind_coefficients wind_function = Inr (a_u, 0.536)"
    using assms wind_coefficients_table by auto
  have nz: "example_Ra \<noteq> 0" using example_Ra_bounds(1) by simp
  have t: "(0::real) \<le> - 9.5 + 9.5" by simp
  have q: "(10 / example_Ra)\<^sup>2 < float_overflow"
    by (rule example_quotient) simp_all
  show ?thesis
    unfolding e_pen_Some_value [OF ra_and_N_example w t nz q] by simp
qed

lemma term2_cold_example: "0.1 \<le> 2.4 * (10 / example_Ra)\<^sup>2"
proof -
  have "10 / 45 \<le> 10 / example_Ra"
    using example_Ra_bounds by (intro divide_left_mono) simp_all
  then have "(10 / 45)\<^sup>2 \<le> (10 / example_Ra)\<^sup>2"
    by (intro power_mono) simp_all
  moreover have "(10 / 45)\<^sup>2 = (4 / 81 :: real)"
    by (simp add: power2_eq_square)
  ultimately show ?thesis by simp
qed

lemma clamped_cold_example:
  fixes a_u :: real
  assumes a: "wind_function = ''penman1948'' \<and> a_u = 1 \<or> wind_function = ''penman1956'' \<and> a_u = 0.5"
  shows "calculate_daily_evaporation penman (DateText ''2025-07-15'') (-9.5) 90 10 (Some 0)
           wind_function = Inr 0"
proof -
  from a have "a_u \<le> 1" by auto
  with term2_cold_example
  have "0.052 * (-9.5 + 20) * (1 - 90 / 100) * (a_u - 0.38) + 0.00012 * 30
                - 2.4 * (10 / example_Ra)\<^sup>2 \<le> 0"
    by (simp add: field_simps)
  then show ?thesis
    by (simp only: calculate_daily_evaporation_def e_pen_cold_example [OF a] sum.case max_absorb1)
qed


lemma term1_warm_example: "6 \<le> 0.051 * (1 - 0.08) * 22 * sqrt (28 + 9.5)"
proof -
  have "sqrt 36 \<le> sqrt (28 + 9.5)" by (subst real_sqrt_le_iff) simp
  moreover have "sqrt 36 = 6" using real_sqrt_abs [of 6] by simp
  ultimately have "6 \<le> sqrt (28 + 9.5)" by simp
  then show ?thesis by simp
qed

lemma term2_warm_example: "2.4 * (22 / example_Ra)\<^sup>2 \<le> 4"
proof -
  have "22 / example_Ra \<le> 22 / 18"
    using example_Ra_lower by (intro divide_left_mono) simp_all
  moreover have "0 \<le> 22 / example_Ra" using example_Ra_bounds(1) by simp
  ultimately have "(22 / example_Ra)\<^sup>2 \<le> (22 / 18)\<^sup>2"
    by (intro power_mono) simp_all
  moreover have "(22 / 18)\<^sup>2 = (121 / 81 :: real)"
    by (simp add: power2_eq_square)
  ultimately show ?thesis by simp
qed

lemma warm_example_nonnegative:
  fixes a_u :: real
  assumes "0.5 \<le> a_u"
  shows "0 \<le> 0.051 * (1 - 0.08) * 22 * sqrt (28 + 9.5) - 2.4 * (22 / example_Ra)\<^sup>2
                + 0.052 * (28 + 20) * (1 - 45 / 100) * (a_u - 0.38 + 0.536 * 2.5)
                + 0.00012 * 30"
proof -
  have "0 \<le> 0.052 * (28 + 20) * (1 - 45 / 100) * (a_u - 0.38 + 0.536 * 2.5)"
    using assms by simp
  with term1_warm_example term2_warm_example show ?thesis by simp
qed

text \<open>
  A latitude of no place on Earth (about 195 degrees south), which the constructor
  accepts all the same, at which the sub-model returns no daylight and no radiation in
  July.
\<close>

lemma sin_july_positive: "0 < sin (2.06 :: real)"
proof -
  have "(0::real) < 2.06" "(2.06::real) < pi" using pi_ge_three by simp_all
  then show ?thesis by (rule sin_gt_zero)
qed

lemma ra_and_N_zero:
  "calculate_ra_and_N (init (- 3 / sin 2.06 * 180 / pi) 0 0.08)
     (DateValue \<lparr>year = 2025, month = 7, day = 15\<rparr>) = Inr (0, 0)"
proof -
  have s: "sin (2.06 :: real) \<noteq> 0" using sin_july_positive by simp
  have r: "radians (- 3 / sin 2.06 * 180 / pi) = - 3 / sin 2.06"
    by (simp add: radians_def)
  have n: "4 * (- 3 / sin 2.06) * sin (0.53 * real (7::nat) - 1.65) + 12 = (0::real)"
    using s by simp
  show ?thesis
    unfolding calculate_ra_and_N_def Let_def
    by (simp only: date_arg.case sum.case latitude_rad_init r n date.simps) simp
qed

section \<open>Properties\<close>

subsection \<open>The formulas\<close>




text \<open>
  C2: the radiation sub-model. For every engine with stored latitude \<open>phi\<close> and every
  date with month \<open>m\<close>, given as a date value or as a text the parser accepts, the
  sub-model returns \<open>N = 4 phi sin (0.53 m - 1.65) + 12\<close>, and with it
  \<open>Ra = 3 N sin (0.131 N - 0.95 phi)\<close> when \<open>\<bar>phi\<bar>\<close> is strictly greater than
  \<open>23.5 pi / 180\<close>, and \<open>Ra = 118 N\<^sup>2 sin (0.131 N - 0.2 phi)\<close> otherwise, in
  particular when \<open>\<bar>phi\<bar>\<close> is exactly \<open>23.5 pi / 180\<close>.
\<close>

theorem ra_and_N_formula:
  assumes "dt = DateValue d \<or> dt = DateText s \<and> strptime s = Inr d"
  shows "let phi = latitude_rad self;
             N = 4 * phi * sin (0.53 * real (month d) - 1.65) + 12
         in \<exists>Ra. calculate_ra_and_N self dt = Inr (Ra, N) \<and>
              (\<bar>phi\<bar> > 23.5 * pi / 180 \<longrightarrow> Ra = 3 * N * sin (0.131 * N - 0.95 * phi)) \<and>
              (\<not> \<bar>phi\<bar> > 23.5 * pi / 180 \<longrightarrow> Ra = 118 * N\<^sup>2 * sin (0.131 * N - 0.2 * phi)) \<and>
              (\<bar>phi\<bar> = 23.5 * pi / 180 \<longrightarrow> Ra = 118 * N\<^sup>2 * sin (0.131 * N - 0.2 * phi))"
  using assms by (auto simp add: calculate_ra_and_N_def Let_def)

text \<open>
  The example site (temperate), a site at latitude 10 (tropical) and a site at latitude
  23.5, on the boundary, which takes the tropical formula.
\<close>

theorem ra_and_N_formula_witness:
  "calculate_ra_and_N penman (DateText ''2025-07-15'') =
     Inr (3 * example_N * sin (0.131 * example_N - 0.95 * radians 31.96),
          4 * radians 31.96 * sin (0.53 * 7 - 1.65) + 12)
   \<and> calculate_ra_and_N (init 10 0 0.08) (DateValue \<lparr>year = 2025, month = 1, day = 15\<rparr>) =
     Inr (118 * (4 * radians 10 * sin (0.53 * 1 - 1.65) + 12)\<^sup>2
            * sin (0.131 * (4 * radians 10 * sin (0.53 * 1 - 1.65) + 12) - 0.2 * radians 10),
          4 * radians 10 * sin (0.53 * 1 - 1.65) + 12)
   \<and> calculate_ra_and_N (init 23.5 0 0.08) (DateValue \<lparr>year = 2025, month = 1, day = 15\<rparr>) =
     Inr (118 * (4 * radians 23.5 * sin (0.53 * 1 - 1.65) + 12)\<^sup>2
            * sin (0.131 * (4 * radians 23.5 * sin (0.53 * 1 - 1.65) + 12) - 0.2 * radians 23.5),
          4 * radians 23.5 * sin (0.53 * 1 - 1.65) + 12)"
proof -
  have t: "\<not> 23.5 * pi / 180 < \<bar>radians 10\<bar>" and b: "\<bar>radians 23.5\<bar> = 23.5 * pi / 180"
    by (simp_all add: radians_def)
  have 1: "dt = DateValue d \<or> dt = DateText ''2025-07-15'' \<and> strptime ''2025-07-15'' = Inr d"
    if "dt = DateText ''2025-07-15''" "d = \<lparr>year = 2025, month = 7, day = 15\<rparr>" for dt d
    using that strptime_example by simp
  show ?thesis
    using ra_and_N_formula [OF 1, of "DateText ''2025-07-15''" "\<lparr>year = 2025, month = 7, day = 15\<rparr>" penman]
      ra_and_N_formula [of "DateValue \<lparr>year = 2025, month = 1, day = 15\<rparr>" "\<lparr>year = 2025, month = 1, day = 15\<rparr>" "[]" "init 10 0 0.08"]
      ra_and_N_formula [of "DateValue \<lparr>year = 2025, month = 1, day = 15\<rparr>" "\<lparr>year = 2025, month = 1, day = 15\<rparr>" "[]" "init 23.5 0 0.08"]
      temperate_example t b
    by (simp add: Let_def penman_def example_N_def)
qed




text \<open>
  C4: the clamp. Whenever \<open>calculate_daily_evaporation\<close> returns a value \<open>v\<close>, the
  value is not negative: the raw formula returned some \<open>e\<close>, \<open>v\<close> is exactly
  \<open>max 0 e\<close>, and a negative \<open>e\<close> gives exactly 0.
\<close>

theorem result_nonnegative:
  assumes "calculate_daily_evaporation self dt t_mean rh_mean rs u wind_function = Inr v"
  shows "0 \<le> v \<and>
         (\<exists>e. e_pen self dt t_mean rh_mean rs u wind_function = Inr e \<and> v = max 0 e
               \<and> (e < 0 \<longrightarrow> v = 0))"
  using assms by (auto simp add: calculate_daily_evaporation_def split: sum.splits)

text \<open>
  The cold day at the example site: the raw value is negative and the result is 0.
\<close>

theorem result_nonnegative_witness:
  "calculate_daily_evaporation penman (DateText ''2025-07-15'') (-9.5) 90 10 (Some 0) ''penman1948''
     = Inr 0
   \<and> e_pen penman (DateText ''2025-07-15'') (-9.5) 90 10 (Some 0) ''penman1948''
     = Inr (0.052 * (-9.5 + 20) * (1 - 90 / 100) * (1 - 0.38) + 0.00012 * 30
                - 2.4 * (10 / example_Ra)\<^sup>2)
   \<and> 0.052 * (-9.5 + 20) * (1 - 90 / 100) * (1 - 0.38) + 0.00012 * 30
                - 2.4 * (10 / example_Ra)\<^sup>2 < 0
   \<and> (0::real) \<le> 0"
proof -
  have c: "calculate_daily_evaporation penman (DateText ''2025-07-15'') (-9.5) 90 10 (Some 0)
      ''penman1948'' = Inr 0"
    by (rule clamped_cold_example [where a_u = 1]) simp
  have e: "e_pen penman (DateText ''2025-07-15'') (-9.5) 90 10 (Some 0) ''penman1948''
     = Inr (0.052 * (-9.5 + 20) * (1 - 90 / 100) * (1 - 0.38) + 0.00012 * 30
                - 2.4 * (10 / example_Ra)\<^sup>2)"
    by (rule e_pen_cold_example) simp
  have n: "0.052 * (-9.5 + 20) * (1 - 90 / 100) * (1 - 0.38) + 0.00012 * 30
                - 2.4 * (10 / example_Ra)\<^sup>2 < 0"
    using term2_cold_example by simp
  from result_nonnegative [OF c] c e n show ?thesis by blast
qed

subsection \<open>Errors\<close>

text \<open>
  C5, as amended: numeric domain errors. For a call on a date for which the sub-model
  returns \<open>(Ra, N)\<close>: with \<open>u\<close> present and a recognized wind function, the call
  fails with a numeric domain error when \<open>t_mean < - 9.5\<close> (the square root) or when
  \<open>Ra = 0\<close> (the division); with \<open>u\<close> absent it fails with the same square-root
  error when \<open>t_mean < - 9.5\<close>. No value is returned, and nothing is clamped or
  recovered. The error is that of the square root when both conditions hold, since the
  source evaluates it first.
\<close>

theorem numeric_domain_errors:
  assumes ra: "calculate_ra_and_N self dt = Inr (Ra, N)"
    and c: "u = Some uv \<and> wind_function \<in> {''penman1948'', ''penman1956'', ''linacre1993''}
              \<and> (t_mean < - 9.5 \<or> Ra = 0)
            \<or> u = None \<and> t_mean < - 9.5"
  shows "calculate_daily_evaporation self dt t_mean rh_mean rs u wind_function
           = Inl (if t_mean < - 9.5 then Math_domain_error else ZeroDivisionError)
         \<and> kind_of (if t_mean < - 9.5 then Math_domain_error else ZeroDivisionError)
           = NumericDomainError"
proof -
  have k: "kind_of (if t_mean < - 9.5 then Math_domain_error else ZeroDivisionError)
           = NumericDomainError"
    by simp
  show ?thesis
  proof (cases u)
    case None
    with c have t: "t_mean < - 9.5" by simp
    then have "e_pen self dt t_mean rh_mean rs None wind_function
           = Inl (if t_mean < - 9.5 then Math_domain_error else ZeroDivisionError)"
      by (simp add: e_pen_None [OF ra])
    with None k show ?thesis by (simp add: calculate_daily_evaporation_def)
  next
    case (Some x)
    with c have t: "t_mean < - 9.5 \<or> Ra = 0"
      and "wind_function \<in> {''penman1948'', ''penman1956'', ''linacre1993''}"
      by simp_all
    then obtain a_u b_u where w: "wind_coefficients wind_function = Inr (a_u, b_u)"
      using wind_coefficients_table by auto
    from t have "e_pen self dt t_mean rh_mean rs (Some x) wind_function
           = Inl (if t_mean < - 9.5 then Math_domain_error else ZeroDivisionError)"
      by (auto simp add: e_pen_Some [OF ra w])
    with Some k show ?thesis by (simp add: calculate_daily_evaporation_def)
  qed
qed

text \<open>
  Ten degrees below zero at the example site, with and without wind data, and the example
  day at the latitude where the radiation is zero.
\<close>

theorem numeric_domain_errors_witness:
  "calculate_ra_and_N penman (DateText ''2025-07-15'') = Inr (example_Ra, example_N)
   \<and> calculate_daily_evaporation penman (DateText ''2025-07-15'') (- 10) 45 22 (Some 2.5)
        ''penman1948'' = Inl Math_domain_error
   \<and> calculate_daily_evaporation penman (DateText ''2025-07-15'') (- 10) 45 22 None
        ''penman1948'' = Inl Math_domain_error
   \<and> calculate_ra_and_N (init (- 3 / sin 2.06 * 180 / pi) 0 0.08)
        (DateValue \<lparr>year = 2025, month = 7, day = 15\<rparr>) = Inr (0, 0)
   \<and> calculate_daily_evaporation (init (- 3 / sin 2.06 * 180 / pi) 0 0.08)
        (DateValue \<lparr>year = 2025, month = 7, day = 15\<rparr>) 28 45 22 (Some 2.5) ''penman1948''
        = Inl ZeroDivisionError
   \<and> kind_of Math_domain_error = NumericDomainError
   \<and> kind_of ZeroDivisionError = NumericDomainError"
proof -
  have c1: "Some (2.5::real) = Some 2.5 \<and> ''penman1948'' \<in> {''penman1948'', ''penman1956'', ''linacre1993''}
              \<and> ((- 10 :: real) < - 9.5 \<or> example_Ra = 0)
            \<or> Some (2.5::real) = None \<and> (- 10 :: real) < - 9.5"
    by simp
  have c2: "(None :: real option) = Some 0 \<and> ''penman1948'' \<in> {''penman1948'', ''penman1956'', ''linacre1993''}
              \<and> ((- 10 :: real) < - 9.5 \<or> example_Ra = 0)
            \<or> (None :: real option) = None \<and> (- 10 :: real) < - 9.5"
    by simp
  have c3: "Some (2.5::real) = Some 2.5 \<and> ''penman1948'' \<in> {''penman1948'', ''penman1956'', ''linacre1993''}
              \<and> ((28 :: real) < - 9.5 \<or> (0::real) = 0)
            \<or> Some (2.5::real) = None \<and> (28 :: real) < - 9.5"
    by simp
  from numeric_domain_errors [OF ra_and_N_example c1, of 45 22]
    numeric_domain_errors [OF ra_and_N_example c2, of 45 22]
    numeric_domain_errors [OF ra_and_N_zero c3, of 45 22]
    ra_and_N_example ra_and_N_zero
  show ?thesis by simp
qed

text \<open>
  As C5 is stated, for every call with \<open>u\<close> present, it fails: with an unrecognized
  wind function the source raises the error of the wind function before it takes the
  square root, so ten degrees below zero with the wind function \<^verbatim>\<open>foo\<close> is an
  invalid parameter error, not a numeric domain error.
\<close>

theorem numeric_domain_errors_counterexample:
  "calculate_daily_evaporation penman (DateText ''2025-07-15'') (- 10) 45 22 (Some 2.5) ''foo''
     = Inl Invalid_wind_function
   \<and> kind_of Invalid_wind_function \<noteq> NumericDomainError"
proof -
  have w: "wind_coefficients ''foo'' = Inl Invalid_wind_function"
    by (simp add: wind_coefficients_def)
  show ?thesis
    by (simp add: calculate_daily_evaporation_def e_pen_Some_Inl [OF ra_and_N_example w])
qed

text \<open>
  C6, as amended: the unrecognized wind function. For a call with \<open>u\<close> present and a
  wind function that is none of \<^verbatim>\<open>penman1948\<close>, \<^verbatim>\<open>penman1956\<close>,
  \<^verbatim>\<open>linacre1993\<close>, on a date for which the sub-model returns, the call fails with an
  invalid parameter error, whatever the weather inputs are: no default wind function is
  substituted and no value is produced.
\<close>

theorem invalid_wind_function:
  assumes "calculate_ra_and_N self dt = Inr (Ra, N)"
    and "wind_function \<notin> {''penman1948'', ''penman1956'', ''linacre1993''}"
  shows "calculate_daily_evaporation self dt t_mean rh_mean rs (Some u) wind_function
           = Inl Invalid_wind_function
         \<and> kind_of Invalid_wind_function = InvalidParameterError"
  using assms
  by (simp add: calculate_daily_evaporation_def e_pen_Some_Inl wind_coefficients_other)

text \<open>
  The example day with the wind function \<^verbatim>\<open>foo\<close>.
\<close>

theorem invalid_wind_function_witness:
  "calculate_ra_and_N penman (DateText ''2025-07-15'') = Inr (example_Ra, example_N)
   \<and> ''foo'' \<notin> {''penman1948'', ''penman1956'', ''linacre1993''}
   \<and> calculate_daily_evaporation penman (DateText ''2025-07-15'') 28 45 22 (Some 2.5) ''foo''
       = Inl Invalid_wind_function
   \<and> kind_of Invalid_wind_function = InvalidParameterError"
proof -
  have w: "''foo'' \<notin> {''penman1948'', ''penman1956'', ''linacre1993''}" by simp
  from invalid_wind_function [OF ra_and_N_example w, of 28 45 22 "2.5"] ra_and_N_example w
  show ?thesis by blast
qed

text \<open>
  As C6 is stated, for every call with \<open>u\<close> present, it fails: the source calls the
  sub-model first, so with the date text \<^verbatim>\<open>15-07-2025\<close> the call with the wind
  function \<^verbatim>\<open>foo\<close> fails with the format error of the date, not with an invalid
  parameter error.
\<close>

theorem invalid_wind_function_counterexample:
  "calculate_daily_evaporation penman (DateText ''15-07-2025'') 28 45 22 (Some 2.5) ''foo''
     = Inl Strptime_ValueError
   \<and> kind_of Strptime_ValueError \<noteq> InvalidParameterError"
  by (simp add: calculate_daily_evaporation_def
      e_pen_Inl [OF ra_and_N_DateText_Inl [OF strptime_wrong_order]])

text \<open>
  C7, as amended: date texts. A date text is parsed as \<^verbatim>\<open>YYYY-MM-DD\<close> in which
  the month and the day may also be written with one digit, and the day with a blank in
  place of a leading zero. The parser returns a date exactly when the text is a year of
  four digits, a hyphen, a month from 1 to 12, a hyphen and a day from 1 to 31, and names
  a calendar date; then both functions do what they do on that date value. On every other
  text the sub-model and \<open>calculate_daily_evaporation\<close> fail with a format error and
  produce nothing else. A text in the strict form \<^verbatim>\<open>YYYY-MM-DD\<close> that names a
  calendar date is parsed to that date. A date value is used as it is: the sub-model
  returns for every date value.
\<close>

theorem date_text_parsed:
  "(strptime s = Inr dt \<longleftrightarrow>
      (\<exists>y m d. s = y @ ''-'' @ m @ ''-'' @ d
         \<and> is_year_text y \<and> is_month_text m \<and> is_day_text d
         \<and> is_calendar_date (int_of_text y) (int_of_text m) (int_of_text d)
         \<and> dt = \<lparr>year = int_of_text y, month = int_of_text m, day = int_of_text d\<rparr>))
   \<and> (strptime s = Inr dt \<longrightarrow>
      calculate_ra_and_N self (DateText s) = calculate_ra_and_N self (DateValue dt)
    \<and> calculate_daily_evaporation self (DateText s) t_mean rh_mean rs u wind_function
        = calculate_daily_evaporation self (DateValue dt) t_mean rh_mean rs u wind_function)
   \<and> ((\<forall>d. strptime s \<noteq> Inr d) \<longrightarrow>
      calculate_ra_and_N self (DateText s) = Inl Strptime_ValueError
    \<and> calculate_daily_evaporation self (DateText s) t_mean rh_mean rs u wind_function
        = Inl Strptime_ValueError)
   \<and> kind_of Strptime_ValueError = FormatError
   \<and> (is_YYYY_MM_DD s
      \<and> is_calendar_date (int_of_text (take 4 s)) (int_of_text (take 2 (drop 5 s)))
          (int_of_text (drop 8 s)) \<longrightarrow>
      strptime s =
        Inr \<lparr>year = int_of_text (take 4 s), month = int_of_text (take 2 (drop 5 s)),
             day = int_of_text (drop 8 s)\<rparr>)
   \<and> (\<exists>Ra N. calculate_ra_and_N self (DateValue d0) = Inr (Ra, N))"
proof (intro conjI impI)
  show "strptime s = Inr dt \<longleftrightarrow>
      (\<exists>y m d. s = y @ ''-'' @ m @ ''-'' @ d
         \<and> is_year_text y \<and> is_month_text m \<and> is_day_text d
         \<and> is_calendar_date (int_of_text y) (int_of_text m) (int_of_text d)
         \<and> dt = \<lparr>year = int_of_text y, month = int_of_text m, day = int_of_text d\<rparr>)"
    by (rule strptime_iff)
next
  assume p: "strptime s = Inr dt"
  then show r: "calculate_ra_and_N self (DateText s) = calculate_ra_and_N self (DateValue dt)"
    by (rule ra_and_N_DateText_Inr)
  then show "calculate_daily_evaporation self (DateText s) t_mean rh_mean rs u wind_function
        = calculate_daily_evaporation self (DateValue dt) t_mean rh_mean rs u wind_function"
    by (simp add: calculate_daily_evaporation_def e_pen_cong_ra [OF r])
next
  assume n: "\<forall>d. strptime s \<noteq> Inr d"
  then obtain e where "strptime s = Inl e" by (cases "strptime s") auto
  with strptime_Inl have f: "strptime s = Inl Strptime_ValueError" by blast
  then show r: "calculate_ra_and_N self (DateText s) = Inl Strptime_ValueError"
    by (rule ra_and_N_DateText_Inl)
  then show "calculate_daily_evaporation self (DateText s) t_mean rh_mean rs u wind_function
      = Inl Strptime_ValueError"
    by (simp add: calculate_daily_evaporation_def e_pen_Inl)
next
  show "kind_of Strptime_ValueError = FormatError" by simp
next
  assume "is_YYYY_MM_DD s
      \<and> is_calendar_date (int_of_text (take 4 s)) (int_of_text (take 2 (drop 5 s)))
          (int_of_text (drop 8 s))"
  then show "strptime s =
        Inr \<lparr>year = int_of_text (take 4 s), month = int_of_text (take 2 (drop 5 s)),
             day = int_of_text (drop 8 s)\<rparr>"
    by (intro strptime_strict_form) simp_all
next
  show "\<exists>Ra N. calculate_ra_and_N self (DateValue d0) = Inr (Ra, N)"
    by (rule ra_and_N_DateValue)
qed

text \<open>
  The text \<^verbatim>\<open>2025-07-15\<close> is parsed; the texts \<^verbatim>\<open>15-07-2025\<close>,
  \<^verbatim>\<open>abcd-ef-gh\<close> and \<^verbatim>\<open>2025-02-30\<close> are refused.
\<close>

theorem date_text_parsed_witness:
  "is_YYYY_MM_DD ''2025-07-15''
   \<and> strptime ''2025-07-15'' = Inr \<lparr>year = 2025, month = 7, day = 15\<rparr>
   \<and> calculate_ra_and_N penman (DateText ''2025-07-15'')
       = calculate_ra_and_N penman (DateValue \<lparr>year = 2025, month = 7, day = 15\<rparr>)
   \<and> calculate_daily_evaporation penman (DateText ''2025-07-15'') 28 45 22 (Some 2.5) ''penman1948''
       = calculate_daily_evaporation penman (DateValue \<lparr>year = 2025, month = 7, day = 15\<rparr>)
           28 45 22 (Some 2.5) ''penman1948''
   \<and> strptime ''15-07-2025'' = Inl Strptime_ValueError
   \<and> calculate_ra_and_N penman (DateText ''15-07-2025'') = Inl Strptime_ValueError
   \<and> calculate_daily_evaporation penman (DateText ''15-07-2025'') 28 45 22 (Some 2.5) ''penman1948''
       = Inl Strptime_ValueError
   \<and> calculate_ra_and_N penman (DateText ''abcd-ef-gh'') = Inl Strptime_ValueError
   \<and> calculate_ra_and_N penman (DateText ''2025-02-30'') = Inl Strptime_ValueError
   \<and> kind_of Strptime_ValueError = FormatError"
proof -
  note a = date_text_parsed [of "''2025-07-15''" "\<lparr>year = 2025, month = 7, day = 15\<rparr>"
      penman 28 45 22 "Some 2.5" "''penman1948''"]
  note b = date_text_parsed [of "''15-07-2025''" _ penman 28 45 22 "Some 2.5" "''penman1948''"]
  note c = date_text_parsed [of "''abcd-ef-gh''" _ penman 28 45 22 "Some 2.5" "''penman1948''"]
  note d = date_text_parsed [of "''2025-02-30''" _ penman 28 45 22 "Some 2.5" "''penman1948''"]
  from a strict_example have "strptime ''2025-07-15'' =
        Inr \<lparr>year = int_of_text (take 4 ''2025-07-15''),
             month = int_of_text (take 2 (drop 5 ''2025-07-15'')),
             day = int_of_text (drop 8 ''2025-07-15'')\<rparr>"
    by blast
  then have 1: "strptime ''2025-07-15'' = Inr \<lparr>year = 2025, month = 7, day = 15\<rparr>"
    by (simp add: int_of_text_def)
  have 2: "\<forall>d. strptime ''15-07-2025'' \<noteq> Inr d" by (simp add: strptime_wrong_order)
  have 3: "\<forall>d. strptime ''abcd-ef-gh'' \<noteq> Inr d" by (simp add: strptime_letters)
  have 4: "\<forall>d. strptime ''2025-02-30'' \<noteq> Inr d" by (simp add: strptime_february)
  from a b c d 1 2 3 4 strict_example strptime_wrong_order show ?thesis by blast
qed

text \<open>
  As C7 is stated, every text that is not in the form \<^verbatim>\<open>YYYY-MM-DD\<close> fails.
  The library's directives \<^verbatim>\<open>%m\<close> and \<^verbatim>\<open>%d\<close> also take a number of one
  digit: the text \<^verbatim>\<open>2025-7-5\<close> is not in that form, and the sub-model returns for
  it what it returns for a day in July.
\<close>

theorem date_text_counterexample:
  "\<not> is_YYYY_MM_DD ''2025-7-5''
   \<and> calculate_ra_and_N penman (DateText ''2025-7-5'') = Inr (example_Ra, example_N)"
proof -
  have "calculate_ra_and_N penman (DateText ''2025-7-5'')
      = calculate_ra_and_N penman (DateValue \<lparr>year = 2025, month = 7, day = 5\<rparr>)"
    using strptime_one_digit by (rule ra_and_N_DateText_Inr)
  also have "\<dots> = calculate_ra_and_N penman (DateValue \<lparr>year = 2025, month = 7, day = 15\<rparr>)"
    by (simp add: calculate_ra_and_N_def)
  also have "\<dots> = calculate_ra_and_N penman (DateText ''2025-07-15'')"
    using strptime_example by (rule ra_and_N_DateText_Inr [symmetric])
  finally show ?thesis using ra_and_N_example by simp
qed

subsection \<open>Relations between calls\<close>




text \<open>
  C10: without wind data the result does not depend on the albedo. Two engines built with
  the same latitude and elevation and any two albedos return the same result, value or
  error, on the same weather inputs with \<open>u\<close> absent.
\<close>

theorem no_wind_albedo_independent:
  "calculate_daily_evaporation (init lat elev alb1) dt t_mean rh_mean rs None wind_function
   = calculate_daily_evaporation (init lat elev alb2) dt t_mean rh_mean rs None wind_function"
proof -
  have eq: "calculate_ra_and_N (init lat elev alb1) dt = calculate_ra_and_N (init lat elev alb2) dt"
    by (rule ra_and_N_init)
  have "e_pen (init lat elev alb1) dt t_mean rh_mean rs None wind_function
      = e_pen (init lat elev alb2) dt t_mean rh_mean rs None wind_function"
  proof (cases "calculate_ra_and_N (init lat elev alb2) dt")
    case (Inl e)
    with eq show ?thesis by (simp add: e_pen_Inl)
  next
    case (Inr p)
    obtain ra N where "p = (ra, N)" by (cases p)
    with Inr eq show ?thesis by (simp add: e_pen_None)
  qed
  then show ?thesis
    by (simp add: calculate_daily_evaporation_def)
qed

end
